theory Spec2Isabelle
  imports Main
begin

section \<open>JavaScript values\<close>

text \<open>
  The values that flow through a resource: what a fetcher returns, throws or resolves
  with, what a source accessor yields, and what \<open>refetch\<close> is given. Numbers and
  plain records are carried around and never inspected, so a number is an integer and a
  plain record (an object without a \<open>then\<close> member that is not an \<open>Error\<close>) is an
  identity. \<open>JError m c\<close> is an \<open>Error\<close> with message \<open>m\<close>; \<open>c\<close> is its
  \<open>cause\<close> when it was built with one. \<open>JPromise n\<close> is the promise object with
  identity \<open>n\<close>.
\<close>

datatype jsval =
    JUndefined
  | JNull
  | JBool bool
  | JNum int
  | JStr string
  | JRecord nat
  | JError string "jsval option"
  | JPromise nat

text \<open>JavaScript's \<open>typeof\<close>, truthiness, \<open>instanceof Error\<close> and \<open>'then' in v\<close>.\<close>

fun typeof :: "jsval \<Rightarrow> string" where
  "typeof JUndefined = ''undefined''"
| "typeof JNull = ''object''"
| "typeof (JBool b) = ''boolean''"
| "typeof (JNum n) = ''number''"
| "typeof (JStr s) = ''string''"
| "typeof (JRecord n) = ''object''"
| "typeof (JError m c) = ''object''"
| "typeof (JPromise n) = ''object''"

fun truthy :: "jsval \<Rightarrow> bool" where
  "truthy JUndefined = False"
| "truthy JNull = False"
| "truthy (JBool b) = b"
| "truthy (JNum n) = (n \<noteq> 0)"
| "truthy (JStr s) = (s \<noteq> [])"
| "truthy (JRecord n) = True"
| "truthy (JError m c) = True"
| "truthy (JPromise n) = True"

fun instanceof_Error :: "jsval \<Rightarrow> bool" where
  "instanceof_Error (JError m c) = True"
| "instanceof_Error v = False"

fun has_then :: "jsval \<Rightarrow> bool" where
  "has_then (JPromise n) = True"
| "has_then v = False"

text \<open>\<open>isPromise(v)\<close> is \<open>v && typeof v === 'object' && 'then' in v\<close>.\<close>

definition isPromise :: "jsval \<Rightarrow> bool" where
  "isPromise v = (truthy v \<and> typeof v = ''object'' \<and> has_then v)"

text \<open>
  \<open>castError\<close>: an \<open>Error\<close> is returned as it is; any other value is wrapped in a new
  \<open>Error\<close> whose message is the value when \<open>typeof err === 'string'\<close> and
  \<open>'Unknown error'\<close> otherwise, with the value as its cause.
\<close>

definition castError :: "jsval \<Rightarrow> jsval" where
  "castError err =
     (if instanceof_Error err then err
      else JError (case err of JStr s \<Rightarrow> s | _ \<Rightarrow> ''Unknown error'') (Some err))"

section \<open>The resource\<close>

datatype rstate = Unresolved | Pending | Ready | Refreshing | Errored

text \<open>The info record a fetcher receives: \<open>{ value, refetching }\<close>.\<close>

record fetcher_info =
  info_value :: jsval
  info_refetching :: jsval

text \<open>
  A fetcher returns a value (possibly a promise) or throws one. It need not be a pure
  function of its arguments, so it is also given the number of times it was invoked
  before.
\<close>

datatype outcome = Returns jsval | Throws jsval

type_synonym fetcher = "nat \<Rightarrow> jsval \<Rightarrow> fetcher_info \<Rightarrow> outcome"

text \<open>
  The closure of one \<open>createResource\<close> call. \<open>data\<close>, \<open>error\<close> and \<open>state\<close> are
  the three signals (with the default storage); \<open>currentPromise\<close>, \<open>resolved\<close> and
  \<open>scheduled\<close> are the three local variables (\<open>currentPromise\<close> is \<open>JNull\<close> or a
  promise). \<open>dynamic\<close> is the current value of the memo over the source accessor, or
  \<open>None\<close> when no accessor was given. The rest is the environment:
  \<open>microtasks\<close> counts the queued \<open>() => (scheduled = false)\<close> callbacks,
  \<open>continuations\<close> lists the \<open>then\<close> callbacks attached by \<open>load\<close> and not run
  yet, each with the promise it is attached to and the \<open>lookup\<close> it closes over, and
  \<open>calls\<close> logs the invocations of the fetcher.
\<close>

record resource =
  data :: jsval
  error :: jsval
  state :: rstate
  currentPromise :: jsval
  resolved :: bool
  scheduled :: bool
  dynamic :: "jsval option"
  microtasks :: nat
  continuations :: "(jsval \<times> jsval) list"
  calls :: "(jsval \<times> fetcher_info) list"

text \<open>\<open>completeLoad(v, err)\<close>: the three writes of one batch.\<close>

definition completeLoad :: "jsval \<Rightarrow> jsval \<Rightarrow> resource \<Rightarrow> resource" where
  "completeLoad v err s =
     s\<lparr> data := (if err = JUndefined then v else data s),
        state := (if err \<noteq> JUndefined then Errored
                  else if resolved s then Ready else Unresolved),
        error := err \<rparr>"

text \<open>\<open>loadEnd(p, v, err, key)\<close>; an omitted \<open>err\<close> or \<open>key\<close> is \<open>JUndefined\<close>.\<close>

definition loadEnd :: "jsval \<Rightarrow> jsval \<Rightarrow> jsval \<Rightarrow> jsval \<Rightarrow> resource \<Rightarrow> jsval \<times> resource" where
  "loadEnd p v err key s =
     (if currentPromise s = p
      then (v, completeLoad v err
                 (s\<lparr> currentPromise := JNull,
                     resolved := (if key \<noteq> JUndefined then True else resolved s) \<rparr>))
      else (v, s))"

text \<open>\<open>read()\<close>, the resource called as a function: \<open>Inl\<close> is a throw.\<close>

definition read :: "resource \<Rightarrow> jsval + jsval" where
  "read s =
     (let err = error s; currentState = state s
      in if err \<noteq> JUndefined \<and> currentState = Errored then Inl err else Inr (data s))"

text \<open>
  What \<open>load\<close> returns: a value, or \<open>result.then(...)\<close>, the promise derived from the
  fetcher's promise \<open>result\<close> by the two continuations below.
\<close>

datatype load_result = Returned jsval | Awaitable jsval

text \<open>
  Four expressions of \<open>load\<close>: its default parameter \<open>refetching = true\<close> (the
  default applies when the argument is \<open>undefined\<close>), the guard
  \<open>refetching !== false && scheduled\<close>, \<open>dynamic ? dynamic() : true\<close>, and the test
  \<open>lookup == null || lookup === false\<close>.
\<close>

definition refetching_param :: "jsval \<Rightarrow> jsval" where
  "refetching_param arg = (if arg = JUndefined then JBool True else arg)"

definition deduplicated :: "jsval \<Rightarrow> resource \<Rightarrow> bool" where
  "deduplicated refetching s = (refetching \<noteq> JBool False \<and> scheduled s)"

definition lookup_of :: "resource \<Rightarrow> jsval" where
  "lookup_of s = (case dynamic s of Some v \<Rightarrow> v | None \<Rightarrow> JBool True)"

definition no_key :: "jsval \<Rightarrow> bool" where
  "no_key lookup = (lookup = JNull \<or> lookup = JUndefined \<or> lookup = JBool False)"

text \<open>
  \<open>load\<close>. The fetcher runs inside \<open>untrack\<close> and its throw is caught into
  \<open>fetchError\<close>; \<open>queueMicrotask\<close> adds one callback to the queue and
  \<open>result.then\<close> attaches one pair of continuations.
\<close>

definition load :: "fetcher \<Rightarrow> jsval \<Rightarrow> resource \<Rightarrow> load_result \<times> resource" where
  "load fetcher arg s =
     (let refetching = refetching_param arg
      in if deduplicated refetching s then (Returned JUndefined, s)
         else
           let s1 = s\<lparr>scheduled := False\<rparr>;
               lookup = lookup_of s1
           in if no_key lookup
              then (Returned JUndefined,
                    snd (loadEnd (currentPromise s1) (data s1) JUndefined JUndefined s1))
              else
                let info = \<lparr>info_value = data s1, info_refetching = refetching\<rparr>;
                    s2 = s1\<lparr>calls := calls s1 @ [(lookup, info)]\<rparr>;
                    (fetchError, result) =
                       (case fetcher (length (calls s1)) lookup info of
                          Returns r \<Rightarrow> (JUndefined, r)
                        | Throws err \<Rightarrow> (err, JUndefined))
                in if fetchError \<noteq> JUndefined
                   then (Returned JUndefined,
                         snd (loadEnd (currentPromise s2) JUndefined (castError fetchError) lookup s2))
                   else if \<not> isPromise result
                   then (Returned result,
                         snd (loadEnd (currentPromise s2) result JUndefined lookup s2))
                   else
                     let s3 = s2\<lparr>currentPromise := result, scheduled := True,
                                  microtasks := Suc (microtasks s2)\<rparr>;
                         s4 = s3\<lparr>state := (if resolved s3 then Refreshing else Pending),
                                  error := JUndefined\<rparr>
                     in (Awaitable result,
                         s4\<lparr>continuations := continuations s4 @ [(result, lookup)]\<rparr>))"

text \<open>
  The two continuations of \<open>result.then\<close>: \<open>(value) => loadEnd(result, value, undefined,
  lookup)\<close> and \<open>(err) => loadEnd(result, undefined, castError(err), lookup)\<close>: the
  value that \<open>loadEnd\<close> returns and the resource after its writes.
\<close>

datatype settlement = Fulfilled jsval | Rejected jsval

definition continuation :: "jsval \<Rightarrow> jsval \<Rightarrow> settlement \<Rightarrow> resource \<Rightarrow> jsval \<times> resource" where
  "continuation result lookup st s =
     (case st of
        Fulfilled v \<Rightarrow> loadEnd result v JUndefined lookup s
      | Rejected err \<Rightarrow> loadEnd result JUndefined (castError err) lookup s)"

text \<open>The getters \<open>loading\<close> and \<open>latest\<close>; \<open>Inl\<close> is a throw.\<close>

definition loading :: "resource \<Rightarrow> bool" where
  "loading s = (let st = state s in st = Pending \<or> st = Refreshing)"

definition latest :: "resource \<Rightarrow> jsval + jsval" where
  "latest s =
     (if \<not> resolved s then read s
      else let err = error s
           in if truthy err \<and> \<not> truthy (currentPromise s) then Inl err else Inr (data s))"

text \<open>
  The actions. \<open>mutate\<close> is the setter of the data signal, which writes the value and
  returns what the signal then holds; \<open>refetch\<close> is \<open>(info) => load(info)\<close>.
\<close>

definition mutate :: "jsval \<Rightarrow> resource \<Rightarrow> jsval \<times> resource" where
  "mutate v s = (let s' = s\<lparr>data := v\<rparr> in (data s', s'))"

definition refetch :: "fetcher \<Rightarrow> jsval \<Rightarrow> resource \<Rightarrow> load_result \<times> resource" where
  "refetch fetcher info s = load fetcher info s"

text \<open>
  \<open>createResource\<close>: \<open>source\<close> is \<open>None\<close> for the form without a source accessor and
  otherwise the value the accessor yields at first; \<open>initialValue\<close> is \<open>JUndefined\<close>
  when the option is absent. Both forms run \<open>load(false)\<close> once before they return (the
  effect runs its body at creation).
\<close>

definition createResource :: "fetcher \<Rightarrow> jsval option \<Rightarrow> jsval \<Rightarrow> resource" where
  "createResource fetcher source initialValue =
     (let s0 = \<lparr> data = initialValue, error = JUndefined,
                  state = (if initialValue \<noteq> JUndefined then Ready else Unresolved),
                  currentPromise = JNull,
                  resolved = (initialValue \<noteq> JUndefined),
                  scheduled = False,
                  dynamic = source, microtasks = 0, continuations = [], calls = [] \<rparr>
      in snd (load fetcher (JBool False) s0))"

section \<open>What can happen to a resource\<close>

text \<open>
  After construction a resource changes only through these events: a call of
  \<open>refetch\<close> or \<open>mutate\<close>; a change of the source accessor's value, upon which the
  effect runs \<open>load(false)\<close> again (nothing happens without an accessor); the microtask
  queue running the queued \<open>scheduled = false\<close> callbacks; or a promise settling, which
  runs the earliest continuation still attached to it. The events may come in any order.
  \<open>settle\<close> also tells which continuation ran, if any.

  The reactive graph is taken as the engine takes it: a write to a cell stores the value,
  and the writes of a batch are kept whether or not a subscriber of the cells throws when
  the batch ends, so the states below do not depend on the subscribers. No subscriber
  calls back into the resource; neither do the fetcher and the source accessor. What
  \<open>load\<close>, \<open>refetch\<close> and \<open>mutate\<close> return is what they return when no
  subscriber throws; how the promise returned by \<open>load\<close> settles when one does is
  the subject of the next section. A value with a \<open>then\<close> member is a promise, which
  runs one of the two continuations of each \<open>then\<close>, once. A change of the source and
  the re-run of the effect are one event.
\<close>

datatype event =
    Refetch jsval
  | Mutate jsval
  | SourceChanged jsval
  | Microtasks
  | Settle jsval settlement

definition run_microtasks :: "resource \<Rightarrow> resource" where
  "run_microtasks s = (if 0 < microtasks s then s\<lparr>scheduled := False, microtasks := 0\<rparr> else s)"

definition settle :: "jsval \<Rightarrow> settlement \<Rightarrow> resource \<Rightarrow> (jsval \<times> jsval) option \<times> resource" where
  "settle p st s =
     (case find (\<lambda>c. fst c = p) (continuations s) of
        None \<Rightarrow> (None, s)
      | Some c \<Rightarrow>
          (Some c,
           snd (continuation (fst c) (snd c) st
                  (s\<lparr>continuations := remove1 c (continuations s)\<rparr>))))"

fun step :: "fetcher \<Rightarrow> resource \<Rightarrow> event \<Rightarrow> resource" where
  "step f s (Refetch info) = snd (refetch f info s)"
| "step f s (Mutate v) = snd (mutate v s)"
| "step f s (SourceChanged v) =
     (case dynamic s of
        None \<Rightarrow> s
      | Some u \<Rightarrow> snd (load f (JBool False) (s\<lparr>dynamic := Some v\<rparr>)))"
| "step f s Microtasks = run_microtasks s"
| "step f s (Settle p st) = snd (settle p st s)"

definition run :: "fetcher \<Rightarrow> resource \<Rightarrow> event list \<Rightarrow> resource" where
  "run f s evs = foldl (step f) s evs"

section \<open>Subscribers and the promise returned by load\<close>

text \<open>
  \<open>batch\<close> is \<open>startBatch(); try { fnToBatch(); } finally { endBatch(); }\<close>: it has no
  \<open>catch\<close>, so what \<open>endBatch\<close> throws leaves \<open>batch\<close>, \<open>completeLoad\<close> and
  \<open>loadEnd\<close>. \<open>endBatch\<close> belongs to the reactive graph, which is not part of the
  repository; it runs the subscribers of the cells that the batch has changed. It is a
  parameter here: \<open>subs before after\<close> is what running the subscribers throws, if
  anything, at the end of a batch that started in \<open>before\<close> and has written \<open>after\<close>.
\<close>

type_synonym subscribers = "resource \<Rightarrow> resource \<Rightarrow> jsval option"

definition no_subscribers :: subscribers where
  "no_subscribers before after = None"

text \<open>
  Modelled from the spec: the effect \<open>createEffect(() => resource())\<close>, which the
  reactive graph runs again whenever a cell read during its last run has changed. While
  the call returns it reads the error, state and data cells; what the call throws
  leaves the effect.
\<close>

definition effect_calling_resource :: subscribers where
  "effect_calling_resource before after =
     (if data after = data before \<and> error after = error before \<and> state after = state before
      then None
      else case read after of Inl e \<Rightarrow> Some e | Inr v \<Rightarrow> None)"

text \<open>
  What a call \<open>loadEnd(p, v, err, key)\<close> throws, if anything: when the handle is the
  tracked one, the batch of \<open>completeLoad\<close> ends by running the subscribers; otherwise
  no batch runs.
\<close>

definition loadEnd_throws ::
  "subscribers \<Rightarrow> jsval \<Rightarrow> jsval \<Rightarrow> jsval \<Rightarrow> jsval \<Rightarrow> resource \<Rightarrow> jsval option" where
  "loadEnd_throws subs p v err key s =
     (if currentPromise s = p
      then subs (s\<lparr> currentPromise := JNull,
                     resolved := (if key \<noteq> JUndefined then True else resolved s) \<rparr>)
                (snd (loadEnd p v err key s))
      else None)"

text \<open>
  How \<open>result.then(onFulfilled, onRejected)\<close> settles when \<open>result\<close> does: it is
  rejected with what the continuation throws, and fulfilled with what it returns
  otherwise. \<open>derived_promise\<close> is that for the earliest continuation attached to
  \<open>p\<close>, the one that \<open>settle\<close> runs.
\<close>

definition then_outcome ::
  "subscribers \<Rightarrow> jsval \<Rightarrow> jsval \<Rightarrow> settlement \<Rightarrow> resource \<Rightarrow> settlement" where
  "then_outcome subs result lookup st s =
     (case st of
        Fulfilled v \<Rightarrow>
          (case loadEnd_throws subs result v JUndefined lookup s of
             Some x \<Rightarrow> Rejected x
           | None \<Rightarrow> Fulfilled (fst (loadEnd result v JUndefined lookup s)))
      | Rejected err \<Rightarrow>
          (case loadEnd_throws subs result JUndefined (castError err) lookup s of
             Some x \<Rightarrow> Rejected x
           | None \<Rightarrow> Fulfilled (fst (loadEnd result JUndefined (castError err) lookup s))))"

definition derived_promise ::
  "subscribers \<Rightarrow> jsval \<Rightarrow> settlement \<Rightarrow> resource \<Rightarrow> settlement option" where
  "derived_promise subs p st s =
     (case find (\<lambda>c. fst c = p) (continuations s) of
        None \<Rightarrow> None
      | Some c \<Rightarrow>
          Some (then_outcome subs (fst c) (snd c) st
                  (s\<lparr>continuations := remove1 c (continuations s)\<rparr>)))"

section \<open>Properties of the states a resource can be in\<close>

text \<open>The error cell holds a value exactly when the state cell is \<open>errored\<close>.\<close>

definition error_matches_state :: "resource \<Rightarrow> bool" where
  "error_matches_state s = ((error s \<noteq> JUndefined) = (state s = Errored))"

text \<open>
  What every state reached from \<open>createResource\<close> satisfies: the error cell matches the
  state cell and holds \<open>undefined\<close> or an \<open>Error\<close>; \<open>currentPromise\<close> is \<open>null\<close> or a
  promise; while \<open>scheduled\<close> is set, a callback that clears it is queued; a tracked
  promise was fetched for a key that the source still yields, and has a continuation
  attached; every continuation closes over a key.
\<close>

definition wellformed :: "resource \<Rightarrow> bool" where
  "wellformed s =
     (error_matches_state s \<and>
      (error s = JUndefined \<or> instanceof_Error (error s)) \<and>
      (currentPromise s = JNull \<or> isPromise (currentPromise s)) \<and>
      (scheduled s \<longrightarrow> 0 < microtasks s) \<and>
      (currentPromise s \<noteq> JNull \<longrightarrow>
         \<not> no_key (lookup_of s) \<and> currentPromise s \<in> fst ` set (continuations s)) \<and>
      (\<forall>c \<in> set (continuations s). \<not> no_key (snd c)))"

section \<open>Fetchers used as examples\<close>

text \<open>
  A fetcher that returns a number at once, one that throws a string, one that throws
  \<open>undefined\<close>, one that returns a fresh pending promise at every call, and one that
  returns a pending promise at its first call and numbers afterwards.
\<close>

definition fetch_value :: fetcher where
  "fetch_value n k i = Returns (JNum 1)"

definition fetch_throws :: fetcher where
  "fetch_throws n k i = Throws (JStr ''boom'')"

definition fetch_throws_undefined :: fetcher where
  "fetch_throws_undefined n k i = Throws JUndefined"

definition fetch_promises :: fetcher where
  "fetch_promises n k i = Returns (JPromise n)"

definition fetch_promise_first :: fetcher where
  "fetch_promise_first n k i = (if n = 0 then Returns (JPromise 0) else Returns (JNum (int n)))"

section \<open>The specification's wording, where it differs from the code\<close>


text \<open>
  The specification gives a wrapped error the string form of the thrown value as its
  message, or \<open>'Unknown error'\<close> when the value cannot be stringified meaningfully, as
  a plain record cannot. \<open>string_form\<close> is JavaScript's \<open>String(v)\<close> on the values
  that have a meaningful one.
\<close>

definition digit :: "nat \<Rightarrow> char" where
  "digit n = ''0123456789'' ! n"

fun decimal :: "nat \<Rightarrow> string" where
  "decimal n = (if n < 10 then [digit n] else decimal (n div 10) @ [digit (n mod 10)])"

declare decimal.simps [simp del]

fun string_form :: "jsval \<Rightarrow> string option" where
  "string_form JUndefined = Some ''undefined''"
| "string_form JNull = Some ''null''"
| "string_form (JBool b) = Some (if b then ''true'' else ''false'')"
| "string_form (JNum n) = Some (if n < 0 then ''-'' @ decimal (nat (- n)) else decimal (nat n))"
| "string_form (JStr s) = Some s"
| "string_form v = None"

definition spec_message :: "jsval \<Rightarrow> string" where
  "spec_message v = (case string_form v of Some m \<Rightarrow> m | None \<Rightarrow> ''Unknown error'')"

section \<open>The paths through load\<close>

lemmas resource_defs =
  run_def createResource_def load_def refetch_def mutate_def settle_def continuation_def
  loadEnd_def completeLoad_def run_microtasks_def refetching_param_def deduplicated_def
  lookup_of_def no_key_def isPromise_def castError_def read_def latest_def loading_def

lemma castError_is_Error: "instanceof_Error (castError e)"
  by (cases e) (simp_all add: castError_def)

lemma castError_defined: "castError e \<noteq> JUndefined"
  by (cases e) (simp_all add: castError_def)

lemma isPromise_not_null: "isPromise r \<Longrightarrow> r \<noteq> JNull"
  by (auto simp add: isPromise_def)

lemma truthy_error: "e = JUndefined \<or> instanceof_Error e \<Longrightarrow> truthy e = (e \<noteq> JUndefined)"
  by (cases e) auto

lemma truthy_promise: "p = JNull \<or> isPromise p \<Longrightarrow> truthy p = (p \<noteq> JNull)"
  by (cases p) (auto simp add: isPromise_def)

text \<open>
  \<open>load\<close> ends in one of five ways. \<open>called arg s\<close> is the state once the fetcher has
  been invoked: the flag is cleared and the invocation is logged.
\<close>

lemma load_cases [case_names Deduplicated No_Key Throws Value Promise]:
  fixes f :: fetcher
  assumes
    "\<lbrakk>deduplicated (refetching_param arg) s; load f arg s = (Returned JUndefined, s)\<rbrakk> \<Longrightarrow> P"
    "\<lbrakk>\<not> deduplicated (refetching_param arg) s; no_key (lookup_of s);
      load f arg s =
        (Returned JUndefined,
         completeLoad (data s) JUndefined (s\<lparr>scheduled := False, currentPromise := JNull\<rparr>))\<rbrakk>
     \<Longrightarrow> P"
    "\<And>e. \<lbrakk>\<not> deduplicated (refetching_param arg) s; \<not> no_key (lookup_of s);
      f (length (calls s)) (lookup_of s)
        \<lparr>info_value = data s, info_refetching = refetching_param arg\<rparr> = Throws e;
      load f arg s =
        (Returned JUndefined,
         completeLoad JUndefined (if e = JUndefined then JUndefined else castError e)
           (s\<lparr>scheduled := False,
              calls := calls s @ [(lookup_of s,
                \<lparr>info_value = data s, info_refetching = refetching_param arg\<rparr>)],
              currentPromise := JNull, resolved := True\<rparr>))\<rbrakk>
     \<Longrightarrow> P"
    "\<And>r. \<lbrakk>\<not> deduplicated (refetching_param arg) s; \<not> no_key (lookup_of s);
      f (length (calls s)) (lookup_of s)
        \<lparr>info_value = data s, info_refetching = refetching_param arg\<rparr> = Returns r;
      \<not> isPromise r;
      load f arg s =
        (Returned r,
         completeLoad r JUndefined
           (s\<lparr>scheduled := False,
              calls := calls s @ [(lookup_of s,
                \<lparr>info_value = data s, info_refetching = refetching_param arg\<rparr>)],
              currentPromise := JNull, resolved := True\<rparr>))\<rbrakk>
     \<Longrightarrow> P"
    "\<And>r. \<lbrakk>\<not> deduplicated (refetching_param arg) s; \<not> no_key (lookup_of s);
      f (length (calls s)) (lookup_of s)
        \<lparr>info_value = data s, info_refetching = refetching_param arg\<rparr> = Returns r;
      isPromise r;
      load f arg s =
        (Awaitable r,
         s\<lparr>scheduled := True,
           calls := calls s @ [(lookup_of s,
             \<lparr>info_value = data s, info_refetching = refetching_param arg\<rparr>)],
           currentPromise := r,
           microtasks := Suc (microtasks s),
           state := (if resolved s then Refreshing else Pending),
           error := JUndefined,
           continuations := continuations s @ [(r, lookup_of s)]\<rparr>)\<rbrakk>
     \<Longrightarrow> P"
  shows P
proof (cases "deduplicated (refetching_param arg) s")
  case True
  then show P by (intro assms(1)) (simp_all add: load_def)
next
  case nd: False
  show P
  proof (cases "no_key (lookup_of s)")
    case True
    with nd show P
      by (intro assms(2)) (simp_all add: load_def loadEnd_def lookup_of_def Let_def)
  next
    case key: False
    show P
    proof (cases "f (length (calls s)) (lookup_of s)
                    \<lparr>info_value = data s, info_refetching = refetching_param arg\<rparr>")
      case (Throws e)
      with nd key show P
        by (intro assms(3) [of e])
           (simp_all add: load_def loadEnd_def lookup_of_def no_key_def Let_def isPromise_def)
    next
      case (Returns r)
      show P
      proof (cases "isPromise r")
        case True
        with nd key Returns show P
          by (intro assms(5) [of r]) (simp_all add: load_def lookup_of_def no_key_def Let_def)
      next
        case False
        with nd key Returns show P
          by (intro assms(4) [of r])
             (simp_all add: load_def loadEnd_def lookup_of_def no_key_def Let_def)
      qed
    qed
  qed
qed

section \<open>Reachable states are well formed\<close>

lemma error_matches_state_loadEnd:
  "error_matches_state s \<Longrightarrow> error_matches_state (snd (loadEnd p v err key s))"
  by (simp add: error_matches_state_def loadEnd_def completeLoad_def)

lemma error_matches_state_load:
  assumes "error_matches_state s"
  shows "error_matches_state (snd (load f arg s))"
proof (cases rule: load_cases [of arg s f])
  case Deduplicated
  with assms show ?thesis by simp
next
  case No_Key
  then show ?thesis by (simp add: error_matches_state_def completeLoad_def)
next
  case (Throws e)
  then show ?thesis by (simp add: error_matches_state_def completeLoad_def castError_defined)
next
  case (Value r)
  then show ?thesis by (simp add: error_matches_state_def completeLoad_def)
next
  case (Promise r)
  then show ?thesis by (simp add: error_matches_state_def)
qed

lemma error_matches_state_settle:
  "error_matches_state s \<Longrightarrow> error_matches_state (snd (settle p st s))"
  by (cases st)
     (simp_all add: error_matches_state_def settle_def continuation_def loadEnd_def
        completeLoad_def castError_defined split: option.splits)

lemma error_matches_state_step:
  assumes "error_matches_state s"
  shows "error_matches_state (step f s e)"
proof (cases e)
  case (Refetch info)
  with assms show ?thesis by (simp add: refetch_def error_matches_state_load)
next
  case (Mutate v)
  with assms show ?thesis by (simp add: mutate_def error_matches_state_def)
next
  case (SourceChanged v)
  from assms have "error_matches_state (s\<lparr>dynamic := Some v\<rparr>)"
    by (simp add: error_matches_state_def)
  then have "error_matches_state (snd (load f (JBool False) (s\<lparr>dynamic := Some v\<rparr>)))"
    by (rule error_matches_state_load)
  with assms SourceChanged show ?thesis by (simp split: option.splits)
next
  case Microtasks
  with assms show ?thesis by (simp add: run_microtasks_def error_matches_state_def)
next
  case (Settle p st)
  with assms show ?thesis by (simp add: error_matches_state_settle)
qed

lemma wellformed_load_changed:
  assumes wf: "wellformed s" and d: "\<not> deduplicated (refetching_param arg) s \<or> d = dynamic s"
  shows "wellformed (snd (load f arg (s\<lparr>dynamic := d\<rparr>)))"
proof (cases rule: load_cases [of arg "s\<lparr>dynamic := d\<rparr>" f])
  case Deduplicated
  then have "deduplicated (refetching_param arg) s" by (simp add: deduplicated_def)
  with d have "s\<lparr>dynamic := d\<rparr> = s" by simp
  with Deduplicated wf show ?thesis by simp
next
  case No_Key
  with wf show ?thesis
    by (simp add: wellformed_def error_matches_state_def completeLoad_def)
next
  case (Throws e)
  with wf show ?thesis
    by (simp add: wellformed_def error_matches_state_def completeLoad_def
          castError_is_Error castError_defined)
next
  case (Value r)
  with wf show ?thesis
    by (simp add: wellformed_def error_matches_state_def completeLoad_def)
next
  case (Promise r)
  then have "r \<noteq> JNull" by (simp add: isPromise_not_null)
  with Promise wf show ?thesis
    by (simp add: wellformed_def error_matches_state_def lookup_of_def)
qed

lemma wellformed_load: "wellformed s \<Longrightarrow> wellformed (snd (load f arg s))"
  using wellformed_load_changed [of s arg "dynamic s" f] by simp

lemma wellformed_settle:
  assumes wf: "wellformed s"
  shows "wellformed (snd (settle p st s))"
proof (cases "find (\<lambda>c. fst c = p) (continuations s)")
  case None
  with wf show ?thesis by (simp add: settle_def)
next
  case (Some c)
  then have c: "c \<in> set (continuations s)" "fst c = p"
    by (auto simp add: find_Some_iff)
  let ?s1 = "s\<lparr>continuations := remove1 c (continuations s)\<rparr>"
  have keys: "\<forall>x \<in> set (continuations ?s1). \<not> no_key (snd x)"
    using wf by (auto simp add: wellformed_def dest: notin_set_remove1)
  have "wellformed (snd (continuation (fst c) (snd c) st ?s1))"
  proof (cases "currentPromise s = p")
    case True
    have "wellformed (snd (loadEnd p v err key ?s1))"
      if "err = JUndefined \<or> instanceof_Error err" for v err key
      using that True wf keys
      by (simp add: loadEnd_def completeLoad_def wellformed_def error_matches_state_def
            lookup_of_def)
    with c show ?thesis
      by (cases st) (simp_all add: continuation_def castError_is_Error)
  next
    case False
    then have stale: "snd (continuation (fst c) (snd c) st ?s1) = ?s1"
      using c by (cases st) (simp_all add: continuation_def loadEnd_def)
    have "currentPromise s \<noteq> JNull \<longrightarrow>
          currentPromise s \<in> fst ` set (remove1 c (continuations s))"
    proof
      assume "currentPromise s \<noteq> JNull"
      with wf have "currentPromise s \<in> fst ` set (continuations s)"
        by (simp add: wellformed_def)
      then obtain c' where c': "c' \<in> set (continuations s)" "fst c' = currentPromise s"
        by (metis imageE)
      with False c have "c' \<noteq> c" by auto
      with c' have "c' \<in> set (remove1 c (continuations s))" by simp
      with c' show "currentPromise s \<in> fst ` set (remove1 c (continuations s))" by force
    qed
    with wf keys stale show ?thesis
      by (simp add: wellformed_def error_matches_state_def lookup_of_def)
  qed
  with Some show ?thesis by (simp add: settle_def split_beta)
qed

lemma wellformed_step:
  assumes wf: "wellformed s"
  shows "wellformed (step f s e)"
proof (cases e)
  case (Refetch info)
  with wf show ?thesis by (simp add: refetch_def wellformed_load)
next
  case (Mutate v)
  with wf show ?thesis
    by (simp add: mutate_def wellformed_def error_matches_state_def lookup_of_def)
next
  case (SourceChanged v)
  have "\<not> deduplicated (refetching_param (JBool False)) s"
    by (simp add: deduplicated_def refetching_param_def)
  with wf have "wellformed (snd (load f (JBool False) (s\<lparr>dynamic := Some v\<rparr>)))"
    by (simp add: wellformed_load_changed)
  with wf SourceChanged show ?thesis by (simp split: option.splits)
next
  case Microtasks
  with wf show ?thesis
    by (auto simp add: run_microtasks_def wellformed_def error_matches_state_def lookup_of_def)
next
  case (Settle p st)
  with wf show ?thesis by (simp add: wellformed_settle)
qed

lemma wellformed_run: "wellformed s \<Longrightarrow> wellformed (run f s evs)"
  unfolding run_def by (induction evs arbitrary: s) (simp_all add: wellformed_step)

lemma wellformed_createResource: "wellformed (createResource f source initialValue)"
  unfolding createResource_def Let_def
  by (rule wellformed_load) (simp add: wellformed_def error_matches_state_def)

lemma wellformed_reachable: "wellformed (run f (createResource f source initialValue) evs)"
  by (simp add: wellformed_run wellformed_createResource)

lemma find_continuation:
  "p \<in> fst ` set xs \<Longrightarrow> \<exists>c. find (\<lambda>c. fst c = p) xs = Some c \<and> fst c = p \<and> c \<in> set xs"
  by (induction xs) auto

section \<open>What load and settle change\<close>

lemma load_calls:
  "calls (snd (load f arg s)) =
     (if deduplicated (refetching_param arg) s \<or> no_key (lookup_of s) then calls s
      else calls s @ [(lookup_of s,
                       \<lparr>info_value = data s, info_refetching = refetching_param arg\<rparr>)])"
  by (cases rule: load_cases [of arg s f]) (simp_all add: completeLoad_def)


lemma load_scheduled:
  "scheduled (snd (load f arg s)) =
     (if deduplicated (refetching_param arg) s then True
      else \<not> no_key (lookup_of s) \<and>
           (case f (length (calls s)) (lookup_of s)
                   \<lparr>info_value = data s, info_refetching = refetching_param arg\<rparr> of
              Throws x \<Rightarrow> False
            | Returns r \<Rightarrow> isPromise r))"
  by (cases rule: load_cases [of arg s f]) (simp_all add: completeLoad_def deduplicated_def)

lemma settle_frame:
  "calls (snd (settle p st s)) = calls s \<and> dynamic (snd (settle p st s)) = dynamic s
   \<and> scheduled (snd (settle p st s)) = scheduled s
   \<and> microtasks (snd (settle p st s)) = microtasks s"
  by (cases st)
     (simp_all add: settle_def continuation_def loadEnd_def completeLoad_def split_beta
        split: option.splits)

lemma settle_attached:
  assumes "p \<in> fst ` set (continuations s)"
  obtains key where "(p, key) \<in> set (continuations s)"
    and "settle p st s =
           (Some (p, key),
            snd (continuation p key st
                    (s\<lparr>continuations := remove1 (p, key) (continuations s)\<rparr>)))"
    and "derived_promise subs p st s =
           Some (then_outcome subs p key st
                   (s\<lparr>continuations := remove1 (p, key) (continuations s)\<rparr>))"
proof -
  from find_continuation [OF assms] obtain c
    where c: "find (\<lambda>c. fst c = p) (continuations s) = Some c" "fst c = p"
      "c \<in> set (continuations s)"
    by blast
  then have "c = (p, snd c)" by auto
  with c that [of "snd c"] show thesis
    by (simp add: settle_def derived_promise_def)
qed

lemma loadEnd_returns: "fst (loadEnd p v err key s) = v"
  by (simp add: loadEnd_def)

lemma then_outcome_stale:
  "currentPromise s \<noteq> p \<Longrightarrow>
   then_outcome subs p key st s =
     Fulfilled (case st of Fulfilled a \<Rightarrow> a | Rejected a \<Rightarrow> JUndefined)"
  by (cases st) (simp_all add: then_outcome_def loadEnd_throws_def loadEnd_returns)

lemma then_outcome_current:
  "currentPromise s = p \<Longrightarrow>
   then_outcome subs p key st s =
     (case subs (s\<lparr> currentPromise := JNull,
                     resolved := (if key \<noteq> JUndefined then True else resolved s) \<rparr>)
                (snd (continuation p key st s)) of
        Some x \<Rightarrow> Rejected x
      | None \<Rightarrow> Fulfilled (case st of Fulfilled a \<Rightarrow> a | Rejected a \<Rightarrow> JUndefined))"
  by (cases st)
     (auto simp add: then_outcome_def loadEnd_throws_def loadEnd_returns continuation_def
        split: option.splits)

lemma settle_found:
  assumes "find (\<lambda>c. fst c = p) (continuations s) = Some c"
  shows "fst c = p"
    and "snd (settle p st s) =
           snd (continuation p (snd c) st (s\<lparr>continuations := remove1 c (continuations s)\<rparr>))"
    and "derived_promise subs p st s =
           Some (then_outcome subs p (snd c) st
                   (s\<lparr>continuations := remove1 c (continuations s)\<rparr>))"
proof -
  from assms show c: "fst c = p" by (auto simp add: find_Some_iff)
  from assms c show "snd (settle p st s) =
           snd (continuation p (snd c) st (s\<lparr>continuations := remove1 c (continuations s)\<rparr>))"
    by (simp add: settle_def)
  from assms c show "derived_promise subs p st s =
           Some (then_outcome subs p (snd c) st
                   (s\<lparr>continuations := remove1 c (continuations s)\<rparr>))"
    by (simp add: derived_promise_def)
qed

section \<open>Finalization\<close>

text \<open>
  Every completion of the load pipeline goes through \<open>loadEnd\<close>, which returns \<open>v\<close>
  and changes the resource exactly when the handle \<open>p\<close> it is given is the tracked
  \<open>currentPromise\<close>. When it applies, the handle is cleared, \<open>resolved\<close> is set if
  there is a key, and one batch writes the cells: without an error the value goes into
  the data cell and the error cell is cleared; with an error the data cell is kept and
  the error goes into the error cell; the state cell becomes \<open>errored\<close> if there is an
  error, else \<open>ready\<close> if \<open>resolved\<close>, else \<open>unresolved\<close>. With another handle
  nothing changes. The continuations of a promise pass the promise they are attached to,
  the value or the normalized error, and the key. A \<open>load\<close> that is not deduplicated
  and finds no key, or whose fetcher throws or returns a value that is no promise,
  passes the handle tracked at that moment, so it always applies; a fetcher that throws
  \<open>undefined\<close> reaches \<open>loadEnd\<close> with no error. A fetcher that returns a promise
  starts an asynchronous load instead.
\<close>

theorem completion_applies_iff_current:
  "loadEnd p v err key s =
     (v, if p = currentPromise s
         then s\<lparr> currentPromise := JNull,
                 resolved := (key \<noteq> JUndefined \<or> resolved s),
                 data := (if err = JUndefined then v else data s),
                 error := err,
                 state := (if err \<noteq> JUndefined then Errored
                           else if key \<noteq> JUndefined \<or> resolved s then Ready
                           else Unresolved) \<rparr>
         else s)
   \<and> continuation p key (Fulfilled v) s = loadEnd p v JUndefined key s
   \<and> continuation p key (Rejected e) s = loadEnd p JUndefined (castError e) key s
   \<and> (\<not> deduplicated (refetching_param arg) s \<longrightarrow>
        snd (load f arg s) =
          (if no_key (lookup_of s)
           then snd (loadEnd (currentPromise s) (data s) JUndefined JUndefined
                       (s\<lparr>scheduled := False\<rparr>))
           else case f (length (calls s)) (lookup_of s)
                       \<lparr>info_value = data s, info_refetching = refetching_param arg\<rparr> of
                  Throws x \<Rightarrow>
                    snd (loadEnd (currentPromise s) JUndefined
                           (if x = JUndefined then JUndefined else castError x) (lookup_of s)
                           (s\<lparr>scheduled := False,
                              calls := calls s @ [(lookup_of s,
                                \<lparr>info_value = data s, info_refetching = refetching_param arg\<rparr>)]\<rparr>))
                | Returns r \<Rightarrow>
                    if isPromise r
                    then s\<lparr>scheduled := True,
                           calls := calls s @ [(lookup_of s,
                             \<lparr>info_value = data s, info_refetching = refetching_param arg\<rparr>)],
                           currentPromise := r,
                           microtasks := Suc (microtasks s),
                           state := (if resolved s then Refreshing else Pending),
                           error := JUndefined,
                           continuations := continuations s @ [(r, lookup_of s)]\<rparr>
                    else snd (loadEnd (currentPromise s) r JUndefined (lookup_of s)
                           (s\<lparr>scheduled := False,
                              calls := calls s @ [(lookup_of s,
                                \<lparr>info_value = data s, info_refetching = refetching_param arg\<rparr>)]\<rparr>))))"
  (is "?A \<and> ?B \<and> ?C \<and> (?nd \<longrightarrow> ?D)")
proof -
  have A: ?A by (auto simp add: loadEnd_def completeLoad_def)
  have B: ?B by (simp add: continuation_def)
  have C: ?C by (simp add: continuation_def)
  have D: ?D if ?nd
  proof (cases rule: load_cases [of arg s f])
    case Deduplicated
    with that show ?thesis by simp
  next
    case No_Key
    then show ?thesis by (simp add: loadEnd_def)
  next
    case (Throws x)
    then show ?thesis by (simp add: loadEnd_def no_key_def)
  next
    case (Value r)
    then show ?thesis by (simp add: loadEnd_def no_key_def)
  next
    case (Promise r)
    then show ?thesis by simp
  qed
  from A B C D show ?thesis by blast
qed

theorem completion_applies_iff_current_witness:
  "loadEnd (JPromise 0) (JStr ''a'') JUndefined (JBool True)
      (createResource fetch_promises None JUndefined) =
     (JStr ''a'',
      \<lparr>data = JStr ''a'', error = JUndefined, state = Ready, currentPromise = JNull,
       resolved = True, scheduled = True, dynamic = None, microtasks = 1,
       continuations = [(JPromise 0, JBool True)],
       calls = [(JBool True, \<lparr>info_value = JUndefined, info_refetching = JBool False\<rparr>)]\<rparr>)
   \<and> loadEnd (JPromise 5) (JStr ''a'') JUndefined (JBool True)
        (createResource fetch_promises None JUndefined) =
       (JStr ''a'', createResource fetch_promises None JUndefined)
   \<and> \<not> deduplicated (refetching_param (JBool False))
          (createResource fetch_promises None JUndefined)
   \<and> snd (load fetch_throws (JBool False) (createResource fetch_promises None JUndefined)) =
       snd (loadEnd (JPromise 0) JUndefined (JError ''boom'' (Some (JStr ''boom''))) (JBool True)
             ((createResource fetch_promises None JUndefined)
                \<lparr>scheduled := False,
                 calls := [(JBool True, \<lparr>info_value = JUndefined, info_refetching = JBool False\<rparr>),
                           (JBool True, \<lparr>info_value = JUndefined, info_refetching = JBool False\<rparr>)]\<rparr>))"
proof -
  let ?s = "createResource fetch_promises None JUndefined"
  have s: "?s = \<lparr>data = JUndefined, error = JUndefined, state = Pending,
       currentPromise = JPromise 0, resolved = False, scheduled = True, dynamic = None,
       microtasks = 1, continuations = [(JPromise 0, JBool True)],
       calls = [(JBool True, \<lparr>info_value = JUndefined, info_refetching = JBool False\<rparr>)]\<rparr>"
    by (simp add: resource_defs fetch_promises_def Let_def)
  have nd: "\<not> deduplicated (refetching_param (JBool False)) ?s"
    by (simp add: deduplicated_def refetching_param_def)
  from completion_applies_iff_current
         [of "JPromise 0" "JStr ''a''" JUndefined "JBool True" ?s JNull "JBool False" fetch_throws]
       completion_applies_iff_current
         [of "JPromise 5" "JStr ''a''" JUndefined "JBool True" ?s JNull "JBool False" fetch_throws]
       nd
  show ?thesis
    unfolding s
    by (simp add: fetch_throws_def lookup_of_def no_key_def refetching_param_def castError_def)
qed

text \<open>
  C1. Every completion of the load pipeline applies exactly when its handle is the
  tracked one, and then writes the value and clears the error on success, or keeps the
  data and writes the normalized error on failure. The code does so for every completion
  but one: a fetcher that throws \<open>undefined\<close> is finalized as a success. On a
  resource created with the initial value \<open>'old'\<close> the data cell is overwritten with
  \<open>undefined\<close>, the error cell is empty, the state is \<open>ready\<close> and calling the
  resource returns \<open>undefined\<close>; a promise rejected with \<open>undefined\<close> on the same
  resource keeps \<open>'old'\<close>, stores the normalized error and makes the state
  \<open>errored\<close>.
\<close>

theorem thrown_undefined_finalized_as_success:
  "createResource fetch_throws_undefined None (JStr ''old'') =
     \<lparr>data = JUndefined, error = JUndefined, state = Ready, currentPromise = JNull,
      resolved = True, scheduled = False, dynamic = None, microtasks = 0, continuations = [],
      calls = [(JBool True, \<lparr>info_value = JStr ''old'', info_refetching = JBool False\<rparr>)]\<rparr>
   \<and> read (createResource fetch_throws_undefined None (JStr ''old'')) = Inr JUndefined
   \<and> data (snd (settle (JPromise 0) (Rejected JUndefined)
        (createResource fetch_promises None (JStr ''old'')))) = JStr ''old''
   \<and> error (snd (settle (JPromise 0) (Rejected JUndefined)
        (createResource fetch_promises None (JStr ''old''))))
       = JError ''Unknown error'' (Some JUndefined)
   \<and> state (snd (settle (JPromise 0) (Rejected JUndefined)
        (createResource fetch_promises None (JStr ''old'')))) = Errored"
  by (simp add: resource_defs fetch_throws_undefined_def fetch_promises_def Let_def)

section \<open>Reading the resource\<close>

text \<open>
  C5. Calling the resource throws the current error exactly when the state cell is
  \<open>errored\<close> and the error cell is not \<open>undefined\<close>; in every other case it returns
  the data cell, whatever the error cell holds.
\<close>

theorem read_throws_iff_errored:
  "read s = (if state s = Errored \<and> error s \<noteq> JUndefined then Inl (error s) else Inr (data s))"
  by (auto simp add: read_def Let_def)

section \<open>The error cell and the state cell\<close>

text \<open>
  C10. In every state of a resource the error cell holds a value exactly when the state
  cell is \<open>errored\<close>: it is so after \<open>createResource\<close>; every finalization, every
  \<open>load\<close> (with the batch that starts an asynchronous load), \<open>mutate\<close> and every
  event keep it so; hence it is so after any sequence of events.
\<close>

theorem error_present_iff_errored:
  "error_matches_state (createResource f source initialValue)
   \<and> (error_matches_state s \<longrightarrow> error_matches_state (snd (loadEnd p v err key s)))
   \<and> (error_matches_state s \<longrightarrow> error_matches_state (snd (load f arg s)))
   \<and> (error_matches_state s \<longrightarrow> error_matches_state (snd (mutate v s)))
   \<and> (error_matches_state s \<longrightarrow> error_matches_state (step f s e))
   \<and> ((error (run f (createResource f source initialValue) evs) \<noteq> JUndefined) =
       (state (run f (createResource f source initialValue) evs) = Errored))"
proof -
  have "wellformed (run f (createResource f source initialValue) evs)"
    by (rule wellformed_reachable)
  then have "(error (run f (createResource f source initialValue) evs) \<noteq> JUndefined) =
       (state (run f (createResource f source initialValue) evs) = Errored)"
    by (simp add: wellformed_def error_matches_state_def)
  moreover have "error_matches_state (createResource f source initialValue)"
    using wellformed_createResource [of f source initialValue] by (simp add: wellformed_def)
  moreover have "error_matches_state s \<longrightarrow> error_matches_state (snd (mutate v s))"
    by (simp add: mutate_def error_matches_state_def)
  ultimately show ?thesis
    by (simp add: error_matches_state_loadEnd error_matches_state_load error_matches_state_step)
qed

theorem error_present_iff_errored_witness:
  "error_matches_state (createResource fetch_throws None JUndefined)
   \<and> state (createResource fetch_throws None JUndefined) = Errored
   \<and> error_matches_state (step fetch_promises (createResource fetch_throws None JUndefined)
        (Refetch JUndefined))
   \<and> state (step fetch_promises (createResource fetch_throws None JUndefined)
        (Refetch JUndefined)) = Refreshing"
proof -
  let ?s = "createResource fetch_throws None JUndefined"
  have h: "error_matches_state ?s"
    by (simp add: resource_defs error_matches_state_def fetch_throws_def Let_def)
  from error_present_iff_errored
         [where f = fetch_promises and s = ?s and e = "Refetch JUndefined"]
  have "error_matches_state (step fetch_promises ?s (Refetch JUndefined))"
    using h by blast
  moreover have "state ?s = Errored"
    by (simp add: resource_defs fetch_throws_def Let_def)
  moreover have "state (step fetch_promises ?s (Refetch JUndefined)) = Refreshing"
    by (simp add: resource_defs fetch_throws_def fetch_promises_def Let_def)
  ultimately show ?thesis using h by simp
qed

section \<open>The latest accessor\<close>

text \<open>
  C6. In every state reached from \<open>createResource\<close>: while \<open>resolved\<close> is false,
  \<open>latest\<close> is \<open>read\<close>; once \<open>resolved\<close> is true, \<open>latest\<close> throws the stored
  error exactly when the error cell holds one and no promise is tracked, and returns the
  data cell otherwise. Whenever \<open>loading\<close> is true, \<open>latest\<close> returns the data cell
  without throwing; and a \<open>refetch\<close> that starts an asynchronous load leaves the data
  cell as it was, sets \<open>loading\<close>, and \<open>latest\<close> returns the previous value.
\<close>

theorem latest_accessor:
  assumes "s = run f (createResource f source initialValue) evs"
  shows "(\<not> resolved s \<longrightarrow> latest s = read s)
       \<and> (resolved s \<longrightarrow>
            latest s = (if error s \<noteq> JUndefined \<and> currentPromise s = JNull
                        then Inl (error s) else Inr (data s)))
       \<and> (loading s \<longrightarrow> latest s = Inr (data s))
       \<and> (fst (refetch f info s) = Awaitable r \<longrightarrow>
            loading (snd (refetch f info s))
            \<and> data (snd (refetch f info s)) = data s
            \<and> latest (snd (refetch f info s)) = Inr (data s))"
proof -
  have wf: "wellformed s" using assms by (simp add: wellformed_reachable)
  then have te: "truthy (error s) = (error s \<noteq> JUndefined)"
    by (simp add: wellformed_def truthy_error)
  from wf have tp: "truthy (currentPromise s) = (currentPromise s \<noteq> JNull)"
    by (simp add: wellformed_def truthy_promise)
  have 1: "\<not> resolved s \<longrightarrow> latest s = read s"
    by (simp add: latest_def)
  have 2: "resolved s \<longrightarrow>
            latest s = (if error s \<noteq> JUndefined \<and> currentPromise s = JNull
                        then Inl (error s) else Inr (data s))"
    using te tp by (simp add: latest_def Let_def)
  have 3: "loading s \<longrightarrow> latest s = Inr (data s)"
  proof
    assume "loading s"
    then have "state s \<noteq> Errored" by (auto simp add: loading_def Let_def)
    with wf have "error s = JUndefined" by (simp add: wellformed_def error_matches_state_def)
    then show "latest s = Inr (data s)" by (simp add: latest_def read_def Let_def)
  qed
  have 4: "fst (refetch f info s) = Awaitable r \<longrightarrow>
            loading (snd (refetch f info s))
            \<and> data (snd (refetch f info s)) = data s
            \<and> latest (snd (refetch f info s)) = Inr (data s)"
    unfolding refetch_def
    by (cases rule: load_cases [of info s f])
       (simp_all add: loading_def latest_def read_def Let_def)
  from 1 2 3 4 show ?thesis by blast
qed

theorem latest_accessor_witness:
  "resolved (run fetch_promises (createResource fetch_promises None (JStr ''old'')) [Microtasks])
   \<and> fst (refetch fetch_promises JUndefined
        (run fetch_promises (createResource fetch_promises None (JStr ''old'')) [Microtasks]))
       = Awaitable (JPromise 1)
   \<and> loading (snd (refetch fetch_promises JUndefined
        (run fetch_promises (createResource fetch_promises None (JStr ''old'')) [Microtasks])))
   \<and> latest (snd (refetch fetch_promises JUndefined
        (run fetch_promises (createResource fetch_promises None (JStr ''old'')) [Microtasks])))
       = Inr (JStr ''old'')
   \<and> \<not> resolved (createResource fetch_promises None JUndefined)
   \<and> loading (createResource fetch_promises None JUndefined)
   \<and> latest (createResource fetch_promises None JUndefined) = Inr JUndefined"
proof -
  let ?s = "run fetch_promises (createResource fetch_promises None (JStr ''old'')) [Microtasks]"
  let ?t = "run fetch_promises (createResource fetch_promises None JUndefined) []"
  have a: "fst (refetch fetch_promises JUndefined ?s) = Awaitable (JPromise 1)"
    by (simp add: resource_defs fetch_promises_def Let_def)
  have b: "resolved ?s" "data ?s = JStr ''old''"
    by (simp_all add: resource_defs fetch_promises_def Let_def)
  have c: "\<not> resolved ?t" "loading ?t" "data ?t = JUndefined"
    by (simp_all add: resource_defs fetch_promises_def Let_def)
  have t: "?t = createResource fetch_promises None JUndefined" by (simp add: run_def)
  from latest_accessor [OF refl, of fetch_promises None "JStr ''old''" "[Microtasks]"
         JUndefined "JPromise 1"] a
  have "loading (snd (refetch fetch_promises JUndefined ?s))
        \<and> latest (snd (refetch fetch_promises JUndefined ?s)) = Inr (data ?s)"
    by blast
  moreover
  from latest_accessor [OF refl, of fetch_promises None JUndefined "[]" JUndefined JNull] c
  have "latest ?t = Inr (data ?t)"
    by blast
  ultimately show ?thesis using a b c unfolding t by simp
qed

section \<open>How the promise returned by load settles\<close>

text \<open>
  C9, amended. When \<open>load\<close> returns an awaitable, a continuation is attached to the
  fetcher's promise. The awaitable is rejected only if the promise is still the tracked
  one and a subscriber of the cells throws when the batch of the finalization ends, and
  then with what the subscriber threw. When no subscriber throws there, the awaitable is
  fulfilled: with the value when the fetcher's promise is fulfilled, with \<open>undefined\<close>
  when it is rejected, the normalized error going into the error cell. The continuation
  of a promise that is no longer tracked runs no batch: whatever the subscribers are,
  the awaitable is fulfilled with the value that is discarded, or with \<open>undefined\<close>,
  and the cells stay as they are.
\<close>

theorem awaitable_settlement:
  "(fst (load f arg s) = Awaitable r \<longrightarrow>
      r \<in> fst ` set (continuations (snd (load f arg s))))
   \<and> (p \<in> fst ` set (continuations s) \<and> currentPromise s \<noteq> p \<longrightarrow>
        derived_promise subs p (Fulfilled v) s = Some (Fulfilled v)
        \<and> derived_promise subs p (Rejected e) s = Some (Fulfilled JUndefined)
        \<and> data (snd (settle p st s)) = data s
        \<and> error (snd (settle p st s)) = error s
        \<and> state (snd (settle p st s)) = state s)
   \<and> (p \<in> fst ` set (continuations s)
        \<and> (\<forall>b. subs b (snd (settle p (Fulfilled v) s)) = None) \<longrightarrow>
        derived_promise subs p (Fulfilled v) s = Some (Fulfilled v))
   \<and> (p \<in> fst ` set (continuations s)
        \<and> (\<forall>b. subs b (snd (settle p (Rejected e) s)) = None) \<longrightarrow>
        derived_promise subs p (Rejected e) s = Some (Fulfilled JUndefined))
   \<and> (derived_promise subs p st s = Some (Rejected x) \<longrightarrow>
        currentPromise s = p \<and> (\<exists>b. subs b (snd (settle p st s)) = Some x))
   \<and> (p \<in> fst ` set (continuations s) \<and> currentPromise s = p \<longrightarrow>
        error (snd (settle p (Rejected e) s)) = castError e)"
proof -
  have 1: "fst (load f arg s) = Awaitable r \<longrightarrow>
      r \<in> fst ` set (continuations (snd (load f arg s)))"
    by (cases rule: load_cases [of arg s f]) simp_all
  have stale: "derived_promise subs p (Fulfilled v) s = Some (Fulfilled v)
        \<and> derived_promise subs p (Rejected e) s = Some (Fulfilled JUndefined)
        \<and> data (snd (settle p st s)) = data s
        \<and> error (snd (settle p st s)) = error s
        \<and> state (snd (settle p st s)) = state s"
    if att: "p \<in> fst ` set (continuations s)" and old: "currentPromise s \<noteq> p"
  proof -
    from find_continuation [OF att] obtain c
      where c: "find (\<lambda>c. fst c = p) (continuations s) = Some c" by blast
    let ?t = "s\<lparr>continuations := remove1 c (continuations s)\<rparr>"
    from old have "currentPromise ?t \<noteq> p" by simp
    then have "then_outcome subs p (snd c) (Fulfilled v) ?t = Fulfilled v"
      and "then_outcome subs p (snd c) (Rejected e) ?t = Fulfilled JUndefined"
      by (simp_all add: then_outcome_stale)
    moreover from old have "snd (continuation p (snd c) st ?t) = ?t"
      by (cases st) (simp_all add: continuation_def loadEnd_def)
    ultimately show ?thesis
      by (simp add: settle_found [OF c])
  qed
  have quiet: "derived_promise subs p st' s =
        Some (Fulfilled (case st' of Fulfilled a \<Rightarrow> a | Rejected a \<Rightarrow> JUndefined))"
    if att: "p \<in> fst ` set (continuations s)"
      and none: "\<forall>b. subs b (snd (settle p st' s)) = None" for st'
  proof -
    from find_continuation [OF att] obtain c
      where c: "find (\<lambda>c. fst c = p) (continuations s) = Some c" by blast
    let ?t = "s\<lparr>continuations := remove1 c (continuations s)\<rparr>"
    from none have quiet': "\<And>b. subs b (snd (continuation p (snd c) st' ?t)) = None"
      by (simp add: settle_found [OF c])
    have "then_outcome subs p (snd c) st' ?t =
        Fulfilled (case st' of Fulfilled a \<Rightarrow> a | Rejected a \<Rightarrow> JUndefined)"
    proof (cases "currentPromise ?t = p")
      case True
      then show ?thesis by (simp add: then_outcome_current quiet')
    next
      case False
      then show ?thesis by (simp add: then_outcome_stale)
    qed
    then show ?thesis by (simp add: settle_found [OF c])
  qed
  have only: "currentPromise s = p \<and> (\<exists>b. subs b (snd (settle p st s)) = Some x)"
    if rej: "derived_promise subs p st s = Some (Rejected x)"
  proof (cases "find (\<lambda>c. fst c = p) (continuations s)")
    case None
    with rej show ?thesis by (simp add: derived_promise_def)
  next
    case (Some c)
    let ?t = "s\<lparr>continuations := remove1 c (continuations s)\<rparr>"
    from rej have out: "then_outcome subs p (snd c) st ?t = Rejected x"
      by (simp add: settle_found [OF Some])
    show ?thesis
    proof (cases "currentPromise ?t = p")
      case True
      define b where "b = ?t\<lparr> currentPromise := JNull,
                       resolved := (if snd c \<noteq> JUndefined then True else resolved ?t) \<rparr>"
      define a where "a = snd (continuation p (snd c) st ?t)"
      have "then_outcome subs p (snd c) st ?t =
              (case subs b a of
                 Some x \<Rightarrow> Rejected x
               | None \<Rightarrow> Fulfilled (case st of Fulfilled a \<Rightarrow> a | Rejected a \<Rightarrow> JUndefined))"
        unfolding b_def a_def using True by (rule then_outcome_current)
      with out have "subs b a = Some x"
        by (cases "subs b a") simp_all
      moreover have "snd (settle p st s) = a"
        unfolding a_def by (rule settle_found (2) [OF Some])
      ultimately have "\<exists>b. subs b (snd (settle p st s)) = Some x"
        by auto
      with True show ?thesis by simp
    next
      case False
      with out show ?thesis by (simp add: then_outcome_stale)
    qed
  qed
  have stored: "error (snd (settle p (Rejected e) s)) = castError e"
    if att: "p \<in> fst ` set (continuations s)" and cur: "currentPromise s = p"
  proof -
    from find_continuation [OF att] obtain c
      where c: "find (\<lambda>c. fst c = p) (continuations s) = Some c" by blast
    from cur show ?thesis
      by (simp add: settle_found [OF c] continuation_def loadEnd_def completeLoad_def)
  qed
  from 1 stale quiet [of "Fulfilled v"] quiet [of "Rejected e"] only stored
  show ?thesis by simp
qed

theorem awaitable_settlement_witness:
  "fst (load fetch_promises (JBool False) (createResource fetch_promises None JUndefined))
     = Awaitable (JPromise 1)
   \<and> JPromise 1 \<in> fst ` set (continuations
        (snd (load fetch_promises (JBool False) (createResource fetch_promises None JUndefined))))
   \<and> JPromise 0 \<in> fst ` set (continuations
        (snd (load fetch_promises (JBool False) (createResource fetch_promises None JUndefined))))
   \<and> currentPromise
        (snd (load fetch_promises (JBool False) (createResource fetch_promises None JUndefined)))
       = JPromise 1
   \<and> derived_promise effect_calling_resource (JPromise 0) (Rejected (JNum 7))
        (snd (load fetch_promises (JBool False) (createResource fetch_promises None JUndefined)))
       = Some (Fulfilled JUndefined)
   \<and> state (snd (settle (JPromise 0) (Rejected (JNum 7))
        (snd (load fetch_promises (JBool False) (createResource fetch_promises None JUndefined)))))
       = Pending
   \<and> derived_promise no_subscribers (JPromise 1) (Fulfilled (JNum 7))
        (snd (load fetch_promises (JBool False) (createResource fetch_promises None JUndefined)))
       = Some (Fulfilled (JNum 7))
   \<and> derived_promise no_subscribers (JPromise 1) (Rejected (JNum 7))
        (snd (load fetch_promises (JBool False) (createResource fetch_promises None JUndefined)))
       = Some (Fulfilled JUndefined)
   \<and> error (snd (settle (JPromise 1) (Rejected (JNum 7))
        (snd (load fetch_promises (JBool False) (createResource fetch_promises None JUndefined)))))
       = JError ''Unknown error'' (Some (JNum 7))"
proof -
  let ?init = "createResource fetch_promises None JUndefined"
  let ?s = "snd (load fetch_promises (JBool False) ?init)"
  have a: "fst (load fetch_promises (JBool False) ?init) = Awaitable (JPromise 1)"
    by (simp add: resource_defs fetch_promises_def Let_def)
  have b: "JPromise 0 \<in> fst ` set (continuations ?s)" "currentPromise ?s = JPromise 1"
    "currentPromise ?s \<noteq> JPromise 0" "state ?s = Pending"
    by (simp_all add: resource_defs fetch_promises_def Let_def)
  have q: "\<forall>b. no_subscribers b t = None" for t
    by (simp add: no_subscribers_def)
  from awaitable_settlement [where f = fetch_promises and arg = "JBool False" and s = ?init
         and r = "JPromise 1"] a
  have c: "JPromise 1 \<in> fst ` set (continuations ?s)" by blast
  from awaitable_settlement [where s = ?s and p = "JPromise 0" and e = "JNum 7"
         and st = "Rejected (JNum 7)" and subs = effect_calling_resource] b
  have d: "derived_promise effect_calling_resource (JPromise 0) (Rejected (JNum 7)) ?s
             = Some (Fulfilled JUndefined)"
    "state (snd (settle (JPromise 0) (Rejected (JNum 7)) ?s)) = Pending"
    by simp_all
  from awaitable_settlement [where s = ?s and p = "JPromise 1" and v = "JNum 7"
         and e = "JNum 7" and subs = no_subscribers] b c q
  have e: "derived_promise no_subscribers (JPromise 1) (Fulfilled (JNum 7)) ?s
             = Some (Fulfilled (JNum 7))"
    "derived_promise no_subscribers (JPromise 1) (Rejected (JNum 7)) ?s
             = Some (Fulfilled JUndefined)"
    "error (snd (settle (JPromise 1) (Rejected (JNum 7)) ?s))
             = JError ''Unknown error'' (Some (JNum 7))"
    by (simp_all add: castError_def)
  from a b c d e show ?thesis by simp
qed

text \<open>
  C9 as stated fails when an effect calls the resource. The first fetch is fulfilled
  and the resource is ready; a \<open>refetch\<close> returns the awaitable of the promise the
  fetcher returned; when that promise is rejected, the batch of the finalization makes
  the state \<open>errored\<close> and ends by running the effect, whose call of the resource
  throws the stored error, and the awaitable is rejected with that error.
\<close>

theorem awaitable_rejected_counterexample:
  "state (run fetch_promises (createResource fetch_promises None JUndefined)
       [Settle (JPromise 0) (Fulfilled (JStr ''ok'')), Microtasks]) = Ready
   \<and> fst (refetch fetch_promises JUndefined
        (run fetch_promises (createResource fetch_promises None JUndefined)
           [Settle (JPromise 0) (Fulfilled (JStr ''ok'')), Microtasks]))
       = Awaitable (JPromise 1)
   \<and> derived_promise effect_calling_resource (JPromise 1) (Rejected (JStr ''down''))
        (snd (refetch fetch_promises JUndefined
           (run fetch_promises (createResource fetch_promises None JUndefined)
              [Settle (JPromise 0) (Fulfilled (JStr ''ok'')), Microtasks])))
       = Some (Rejected (JError ''down'' (Some (JStr ''down''))))"
  by (simp add: resource_defs derived_promise_def then_outcome_def loadEnd_throws_def
        effect_calling_resource_def fetch_promises_def Let_def)

section \<open>mutate\<close>

text \<open>
  C8, amended. \<open>mutate v\<close> returns \<open>v\<close>, writes it into the data cell and leaves the
  state cell, the error cell, \<open>resolved\<close> and \<open>currentPromise\<close> as they are. After
  any sequence of \<open>mutate\<close> calls the resource is the one before them with the last
  value in the data cell, and calling it returns that value unless the state is
  \<open>errored\<close> with an error in the error cell, in which case the call throws that
  error as it did before.
\<close>

theorem mutate_frame:
  "mutate v s = (v, s\<lparr>data := v\<rparr>)
   \<and> data (snd (mutate v s)) = v
   \<and> state (snd (mutate v s)) = state s
   \<and> error (snd (mutate v s)) = error s
   \<and> resolved (snd (mutate v s)) = resolved s
   \<and> currentPromise (snd (mutate v s)) = currentPromise s
   \<and> run f s (map Mutate (vs @ [v])) = s\<lparr>data := v\<rparr>
   \<and> read (run f s (map Mutate (vs @ [v]))) =
       (if state s = Errored \<and> error s \<noteq> JUndefined then Inl (error s) else Inr v)"
proof -
  have "run f t (map Mutate ws) = t\<lparr>data := last (data t # ws)\<rparr>" for t ws
    unfolding run_def by (induction ws arbitrary: t) (simp_all add: mutate_def)
  from this [of s "vs @ [v]"] have r: "run f s (map Mutate (vs @ [v])) = s\<lparr>data := v\<rparr>"
    by simp
  then have "read (run f s (map Mutate (vs @ [v]))) =
       (if state s = Errored \<and> error s \<noteq> JUndefined then Inl (error s) else Inr v)"
    by (auto simp add: read_def Let_def)
  with r show ?thesis by (simp add: mutate_def)
qed

theorem mutate_frame_witness:
  "read (run fetch_value (createResource fetch_value None JUndefined)
           [Mutate (JNum 5), Mutate (JNum 42)]) = Inr (JNum 42)
   \<and> state (run fetch_value (createResource fetch_value None JUndefined)
           [Mutate (JNum 5), Mutate (JNum 42)]) = Ready"
proof -
  let ?s = "createResource fetch_value None JUndefined"
  have s: "state ?s = Ready" "error ?s = JUndefined"
    by (simp_all add: resource_defs fetch_value_def Let_def)
  from mutate_frame [of "JNum 42" ?s fetch_value "[JNum 5]"]
  have "run fetch_value ?s (map Mutate ([JNum 5] @ [JNum 42])) = ?s\<lparr>data := JNum 42\<rparr>"
    and "read (run fetch_value ?s (map Mutate ([JNum 5] @ [JNum 42]))) =
       (if state ?s = Errored \<and> error ?s \<noteq> JUndefined then Inl (error ?s) else Inr (JNum 42))"
    by blast+
  with s show ?thesis by simp
qed

text \<open>
  C8 as stated fails on an errored resource: after \<open>mutate(42)\<close> the data cell holds 42,
  but calling the resource throws the stored error.
\<close>

theorem mutate_errored_counterexample:
  "state (createResource fetch_throws None JUndefined) = Errored
   \<and> data (run fetch_throws (createResource fetch_throws None JUndefined) [Mutate (JNum 42)])
       = JNum 42
   \<and> read (run fetch_throws (createResource fetch_throws None JUndefined) [Mutate (JNum 42)])
       = Inl (JError ''boom'' (Some (JStr ''boom'')))"
  by (simp add: resource_defs fetch_throws_def Let_def)

section \<open>The resolved flag\<close>

text \<open>
  C7, amended. \<open>resolved\<close> is never set back: once true it is true after every event
  and every sequence of events. It becomes true at every completion that applies and has
  a key: a \<open>load\<close> that is not deduplicated, finds a key and whose fetcher throws or
  returns a value that is no promise; and, in a state reached from \<open>createResource\<close>,
  the settling of the tracked promise, fulfilled or rejected. A completion that does not
  apply (the continuation of a promise that is no longer tracked) and a completion
  without a key leave it as it is, and so does \<open>mutate\<close>.
\<close>

theorem resolved_stays_true:
  assumes "s = run f (createResource f source initialValue) evs"
  shows
    "(resolved t \<longrightarrow> resolved (step f t e))
     \<and> (resolved t \<longrightarrow> resolved (run f t evs'))
     \<and> (\<not> deduplicated (refetching_param arg) t \<and> \<not> no_key (lookup_of t)
          \<and> (case f (length (calls t)) (lookup_of t)
                     \<lparr>info_value = data t, info_refetching = refetching_param arg\<rparr> of
                Throws x \<Rightarrow> True
              | Returns r \<Rightarrow> \<not> isPromise r)
          \<longrightarrow> resolved (snd (load f arg t)))
     \<and> (currentPromise s \<noteq> JNull \<longrightarrow> resolved (snd (settle (currentPromise s) st s)))
     \<and> (currentPromise t \<noteq> p \<longrightarrow> resolved (snd (settle p st t)) = resolved t)
     \<and> (no_key (lookup_of t) \<longrightarrow> resolved (snd (load f arg t)) = resolved t)
     \<and> resolved (snd (mutate v t)) = resolved t"
proof -
  have load_mono: "resolved u \<Longrightarrow> resolved (snd (load f a u))" for u a
    by (cases rule: load_cases [of a u f]) (simp_all add: completeLoad_def)
  have settle_mono: "resolved u \<Longrightarrow> resolved (snd (settle q st' u))" for u q st'
    by (cases st')
       (simp_all add: settle_def continuation_def loadEnd_def completeLoad_def split_beta
          split: option.splits)
  have step_mono: "resolved u \<Longrightarrow> resolved (step f u e')" for u e'
  proof (cases e')
    case (SourceChanged x)
    assume "resolved u"
    then have "resolved (snd (load f (JBool False) (u\<lparr>dynamic := Some x\<rparr>)))"
      by (intro load_mono) simp
    with \<open>resolved u\<close> SourceChanged show ?thesis by (simp split: option.splits)
  qed (simp_all add: refetch_def load_mono settle_mono mutate_def run_microtasks_def)
  have run_mono: "resolved u \<Longrightarrow> resolved (run f u es)" for u es
    unfolding run_def by (induction es arbitrary: u) (simp_all add: step_mono)
  have sync: "\<not> deduplicated (refetching_param arg) t \<and> \<not> no_key (lookup_of t)
          \<and> (case f (length (calls t)) (lookup_of t)
                     \<lparr>info_value = data t, info_refetching = refetching_param arg\<rparr> of
                Throws x \<Rightarrow> True
              | Returns r \<Rightarrow> \<not> isPromise r)
          \<longrightarrow> resolved (snd (load f arg t))"
    by (cases rule: load_cases [of arg t f]) (simp_all add: completeLoad_def)
  have async: "resolved (snd (settle (currentPromise s) st s))" if "currentPromise s \<noteq> JNull"
  proof -
    have wf: "wellformed s" using assms by (simp add: wellformed_reachable)
    with that have att: "currentPromise s \<in> fst ` set (continuations s)"
      by (simp add: wellformed_def)
    then obtain key where key: "(currentPromise s, key) \<in> set (continuations s)"
      and eq: "settle (currentPromise s) st s =
           (Some (currentPromise s, key),
            snd (continuation (currentPromise s) key st
                    (s\<lparr>continuations := remove1 (currentPromise s, key) (continuations s)\<rparr>)))"
      by (rule settle_attached)
    from wf key have "\<not> no_key key" by (auto simp add: wellformed_def)
    then have "key \<noteq> JUndefined" by (simp add: no_key_def)
    with eq show ?thesis
      by (cases st) (simp_all add: continuation_def loadEnd_def completeLoad_def)
  qed
  have stale: "currentPromise t \<noteq> p \<longrightarrow> resolved (snd (settle p st t)) = resolved t"
  proof (cases "find (\<lambda>c. fst c = p) (continuations t)")
    case None
    then show ?thesis by (simp add: settle_def)
  next
    case (Some c)
    then have "fst c = p" by (auto simp add: find_Some_iff)
    with Some show ?thesis
      by (cases st) (simp_all add: settle_def continuation_def loadEnd_def split_beta)
  qed
  have nokey: "no_key (lookup_of t) \<longrightarrow> resolved (snd (load f arg t)) = resolved t"
    by (cases rule: load_cases [of arg t f]) (simp_all add: completeLoad_def)
  have "resolved (snd (mutate v t)) = resolved t" by (simp add: mutate_def)
  with step_mono run_mono sync async stale nokey show ?thesis by blast
qed

theorem resolved_stays_true_witness:
  "currentPromise (createResource fetch_promises None JUndefined) \<noteq> JNull
   \<and> \<not> resolved (createResource fetch_promises None JUndefined)
   \<and> resolved (snd (settle (JPromise 0) (Rejected (JNum 3))
        (createResource fetch_promises None JUndefined)))
   \<and> resolved (run fetch_promises
        (snd (settle (JPromise 0) (Rejected (JNum 3))
           (createResource fetch_promises None JUndefined)))
        [Microtasks, Mutate JUndefined, Refetch JUndefined, Settle (JPromise 0) (Fulfilled JNull)])"
proof -
  let ?s = "createResource fetch_promises None JUndefined"
  let ?t = "snd (settle (JPromise 0) (Rejected (JNum 3)) ?s)"
  have s: "?s = run fetch_promises (createResource fetch_promises None JUndefined) []"
    by (simp add: run_def)
  have c: "currentPromise ?s = JPromise 0" "\<not> resolved ?s"
    by (simp_all add: resource_defs fetch_promises_def Let_def)
  from resolved_stays_true [OF s, where st = "Rejected (JNum 3)"] c
  have r: "resolved ?t" by simp
  from resolved_stays_true [OF s, where t = ?t
         and evs' = "[Microtasks, Mutate JUndefined, Refetch JUndefined,
                      Settle (JPromise 0) (Fulfilled JNull)]"] r
  have "resolved (run fetch_promises ?t
          [Microtasks, Mutate JUndefined, Refetch JUndefined,
           Settle (JPromise 0) (Fulfilled JNull)])"
    by blast
  with c r show ?thesis by simp
qed

text \<open>
  C7 as stated fails for a completion that does not apply: a load with the key
  \<open>true\<close> starts a fetch, the source turns \<open>false\<close>, and the promise is fulfilled
  afterwards; its continuation runs with the key \<open>true\<close>, and \<open>resolved\<close> is still
  false.
\<close>

theorem resolved_stale_counterexample:
  "continuations (createResource fetch_promises (Some (JBool True)) JUndefined)
     = [(JPromise 0, JBool True)]
   \<and> fst (settle (JPromise 0) (Fulfilled (JStr ''late''))
        (step fetch_promises (createResource fetch_promises (Some (JBool True)) JUndefined)
           (SourceChanged (JBool False))))
       = Some (JPromise 0, JBool True)
   \<and> resolved (run fetch_promises
        (createResource fetch_promises (Some (JBool True)) JUndefined)
        [SourceChanged (JBool False), Settle (JPromise 0) (Fulfilled (JStr ''late''))]) = False"
  by (simp add: resource_defs fetch_promises_def Let_def)

section \<open>refetch\<close>




section \<open>Error normalization\<close>

text \<open>
  C4, amended. \<open>castError\<close> returns an \<open>Error\<close> as it is; it wraps a string in an
  \<open>Error\<close> with the string as message, and any other value in an \<open>Error\<close> with the
  message \<open>'Unknown error'\<close>; the cause of the wrapper is the original value. A value
  other than \<open>undefined\<close> that the fetcher throws is stored normalized in the error
  cell, the state becomes \<open>errored\<close>, the data cell is kept and calling the resource
  throws the stored error; so does the value, \<open>undefined\<close> included, that the tracked
  promise is rejected with.
\<close>

theorem thrown_values_normalized:
  "(instanceof_Error e \<longrightarrow> castError e = e)
   \<and> castError (JStr m) = JError m (Some (JStr m))
   \<and> (\<not> instanceof_Error e \<and> typeof e \<noteq> ''string'' \<longrightarrow>
        castError e = JError ''Unknown error'' (Some e))
   \<and> (\<not> deduplicated (refetching_param arg) s \<and> \<not> no_key (lookup_of s)
        \<and> f (length (calls s)) (lookup_of s)
             \<lparr>info_value = data s, info_refetching = refetching_param arg\<rparr> = Throws e
        \<and> e \<noteq> JUndefined \<longrightarrow>
        error (snd (load f arg s)) = castError e
        \<and> state (snd (load f arg s)) = Errored
        \<and> data (snd (load f arg s)) = data s
        \<and> read (snd (load f arg s)) = Inl (castError e))
   \<and> (p \<in> fst ` set (continuations s) \<and> currentPromise s = p \<longrightarrow>
        error (snd (settle p (Rejected e) s)) = castError e
        \<and> state (snd (settle p (Rejected e) s)) = Errored
        \<and> data (snd (settle p (Rejected e) s)) = data s
        \<and> read (snd (settle p (Rejected e) s)) = Inl (castError e))"
proof -
  have 1: "instanceof_Error e \<longrightarrow> castError e = e"
    by (simp add: castError_def)
  have 2: "castError (JStr m) = JError m (Some (JStr m))"
    by (simp add: castError_def)
  have 3: "\<not> instanceof_Error e \<and> typeof e \<noteq> ''string'' \<longrightarrow>
        castError e = JError ''Unknown error'' (Some e)"
    by (cases e) (simp_all add: castError_def)
  have 4: "\<not> deduplicated (refetching_param arg) s \<and> \<not> no_key (lookup_of s)
        \<and> f (length (calls s)) (lookup_of s)
             \<lparr>info_value = data s, info_refetching = refetching_param arg\<rparr> = Throws e
        \<and> e \<noteq> JUndefined \<longrightarrow>
        error (snd (load f arg s)) = castError e
        \<and> state (snd (load f arg s)) = Errored
        \<and> data (snd (load f arg s)) = data s
        \<and> read (snd (load f arg s)) = Inl (castError e)"
    by (cases rule: load_cases [of arg s f])
       (simp_all add: completeLoad_def read_def castError_defined)
  have 5: "error (snd (settle p (Rejected e) s)) = castError e
        \<and> state (snd (settle p (Rejected e) s)) = Errored
        \<and> data (snd (settle p (Rejected e) s)) = data s
        \<and> read (snd (settle p (Rejected e) s)) = Inl (castError e)"
    if "p \<in> fst ` set (continuations s)" "currentPromise s = p"
  proof -
    from that(1) obtain key where "settle p (Rejected e) s =
           (Some (p, key),
            snd (continuation p key (Rejected e)
                    (s\<lparr>continuations := remove1 (p, key) (continuations s)\<rparr>)))"
      by (rule settle_attached)
    with that(2) show ?thesis
      by (simp add: continuation_def loadEnd_def completeLoad_def read_def castError_defined)
  qed
  from 1 2 3 4 5 show ?thesis by blast
qed

theorem thrown_values_normalized_witness:
  "castError (JError ''bad'' None) = JError ''bad'' None
   \<and> castError (JRecord 3) = JError ''Unknown error'' (Some (JRecord 3))
   \<and> error (snd (load fetch_throws JUndefined (createResource fetch_value None JUndefined)))
       = JError ''boom'' (Some (JStr ''boom''))
   \<and> read (snd (load fetch_throws JUndefined (createResource fetch_value None JUndefined)))
       = Inl (JError ''boom'' (Some (JStr ''boom'')))
   \<and> read (snd (settle (JPromise 0) (Rejected JUndefined)
        (createResource fetch_promises None JUndefined)))
       = Inl (JError ''Unknown error'' (Some JUndefined))"
proof -
  let ?s = "createResource fetch_value None JUndefined"
  let ?t = "createResource fetch_promises None JUndefined"
  have s: "?s = \<lparr>data = JNum 1, error = JUndefined, state = Ready, currentPromise = JNull,
       resolved = True, scheduled = False, dynamic = None, microtasks = 0, continuations = [],
       calls = [(JBool True, \<lparr>info_value = JUndefined, info_refetching = JBool False\<rparr>)]\<rparr>"
    by (simp add: resource_defs fetch_value_def Let_def)
  have t: "JPromise 0 \<in> fst ` set (continuations ?t)" "currentPromise ?t = JPromise 0"
    by (simp_all add: resource_defs fetch_promises_def Let_def)
  have h: "\<not> deduplicated (refetching_param JUndefined) ?s" "\<not> no_key (lookup_of ?s)"
    "fetch_throws (length (calls ?s)) (lookup_of ?s)
       \<lparr>info_value = data ?s, info_refetching = refetching_param JUndefined\<rparr>
     = Throws (JStr ''boom'')" "JStr ''boom'' \<noteq> JUndefined"
    unfolding s by (simp_all add: deduplicated_def lookup_of_def no_key_def fetch_throws_def)
  from thrown_values_normalized [of "JError ''bad'' None"]
  have a: "castError (JError ''bad'' None) = JError ''bad'' None" by simp
  from thrown_values_normalized [of "JRecord 3"]
  have b: "castError (JRecord 3) = JError ''Unknown error'' (Some (JRecord 3))" by simp
  from thrown_values_normalized [of "JStr ''boom''" "''boom''" JUndefined ?s fetch_throws] h
  have c: "error (snd (load fetch_throws JUndefined ?s)) = JError ''boom'' (Some (JStr ''boom''))"
    "read (snd (load fetch_throws JUndefined ?s)) = Inl (JError ''boom'' (Some (JStr ''boom'')))"
    by simp_all
  from thrown_values_normalized [where e = JUndefined and p = "JPromise 0" and s = ?t] t
  have d: "read (snd (settle (JPromise 0) (Rejected JUndefined) ?t))
           = Inl (JError ''Unknown error'' (Some JUndefined))"
    by simp
  from a b c d show ?thesis by simp
qed

text \<open>
  C4 as stated fails for a value that is no string but has a string form: the number 42
  has the string form \<open>'42'\<close>, and the wrapper's message is \<open>'Unknown error'\<close>.
\<close>

theorem castError_number_counterexample:
  "castError (JNum 42) = JError ''Unknown error'' (Some (JNum 42))
   \<and> spec_message (JNum 42) = ''42''"
  by code_simp

section \<open>Deduplication of refetch\<close>

text \<open>
  C2, amended. A \<open>load\<close> whose \<open>refetching\<close> is not \<open>false\<close> while \<open>scheduled\<close> is
  set returns \<open>undefined\<close> and leaves the resource as it is, the log of fetcher
  invocations included. A \<open>load\<close> that is not deduplicated leaves \<open>scheduled\<close> set
  exactly when it invoked the fetcher and the fetcher returned a promise; \<open>mutate\<close>
  and the settling of a promise do not change the flag, and in a state reached from
  \<open>createResource\<close> the flag is clear once the queued microtasks have run. Every
  \<open>load\<close> invokes the fetcher at most once. Of two \<open>refetch\<close> calls in a row, if the
  flag is set after the first (it was deduplicated itself, or its fetcher returned a
  promise) and the second is not given \<open>false\<close>, the second returns \<open>undefined\<close> and
  changes nothing, so the fetcher is invoked at most once by the two. In a state
  reached from \<open>createResource\<close> that tracks a promise: once that promise has settled
  and the microtasks have run, no promise is tracked and a \<open>refetch\<close> invokes the
  fetcher again.
\<close>

theorem refetch_deduplication:
  assumes "s = run f (createResource f source initialValue) evs"
  shows
    "(deduplicated (refetching_param arg) t \<longrightarrow> load f arg t = (Returned JUndefined, t))
     \<and> (\<not> deduplicated (refetching_param arg) t \<longrightarrow>
          scheduled (snd (load f arg t)) =
            (\<not> no_key (lookup_of t) \<and>
             (case f (length (calls t)) (lookup_of t)
                     \<lparr>info_value = data t, info_refetching = refetching_param arg\<rparr> of
                Throws x \<Rightarrow> False
              | Returns r \<Rightarrow> isPromise r)))
     \<and> scheduled (snd (mutate v t)) = scheduled t
     \<and> scheduled (snd (settle p st t)) = scheduled t
     \<and> \<not> scheduled (step f s Microtasks)
     \<and> length (calls (snd (load f arg t))) \<le> Suc (length (calls t))
     \<and> (scheduled (snd (refetch f info t)) \<and> refetching_param info' \<noteq> JBool False \<longrightarrow>
          refetch f info' (snd (refetch f info t)) = (Returned JUndefined, snd (refetch f info t))
          \<and> length (calls (snd (refetch f info' (snd (refetch f info t)))))
              \<le> Suc (length (calls t)))
     \<and> (currentPromise s \<noteq> JNull \<longrightarrow>
          currentPromise (step f s (Settle (currentPromise s) st)) = JNull
          \<and> calls (run f s [Settle (currentPromise s) st, Microtasks, Refetch info]) =
              calls s @ [(lookup_of s,
                \<lparr>info_value = data (step f s (Settle (currentPromise s) st)),
                 info_refetching = refetching_param info\<rparr>)])"
proof -
  have wf: "wellformed s" using assms by (simp add: wellformed_reachable)
  have a: "deduplicated (refetching_param arg) t \<longrightarrow> load f arg t = (Returned JUndefined, t)"
    by (simp add: load_def)
  have b: "\<not> deduplicated (refetching_param arg) t \<longrightarrow>
          scheduled (snd (load f arg t)) =
            (\<not> no_key (lookup_of t) \<and>
             (case f (length (calls t)) (lookup_of t)
                     \<lparr>info_value = data t, info_refetching = refetching_param arg\<rparr> of
                Throws x \<Rightarrow> False
              | Returns r \<Rightarrow> isPromise r))"
    by (simp add: load_scheduled)
  have c: "scheduled (snd (mutate v t)) = scheduled t"
    by (simp add: mutate_def)
  have d: "scheduled (snd (settle p st t)) = scheduled t"
    by (simp add: settle_frame)
  have e: "\<not> scheduled (step f s Microtasks)"
    using wf by (auto simp add: run_microtasks_def wellformed_def)
  have g: "length (calls (snd (load f a u))) \<le> Suc (length (calls u))" for a u
    by (simp add: load_calls)
  have h: "refetch f info' (snd (refetch f info t)) = (Returned JUndefined, snd (refetch f info t))
          \<and> length (calls (snd (refetch f info' (snd (refetch f info t)))))
              \<le> Suc (length (calls t))"
    if "scheduled (snd (refetch f info t))" "refetching_param info' \<noteq> JBool False"
  proof -
    from that have "deduplicated (refetching_param info') (snd (refetch f info t))"
      by (simp add: deduplicated_def)
    then have "refetch f info' (snd (refetch f info t)) = (Returned JUndefined, snd (refetch f info t))"
      by (simp add: refetch_def load_def)
    with g [of info t] show ?thesis by (simp add: refetch_def)
  qed
  have i: "currentPromise (step f s (Settle (currentPromise s) st)) = JNull
          \<and> calls (run f s [Settle (currentPromise s) st, Microtasks, Refetch info]) =
              calls s @ [(lookup_of s,
                \<lparr>info_value = data (step f s (Settle (currentPromise s) st)),
                 info_refetching = refetching_param info\<rparr>)]"
    if tracked: "currentPromise s \<noteq> JNull"
  proof -
    let ?u = "step f s (Settle (currentPromise s) st)"
    let ?w = "step f ?u Microtasks"
    from wf tracked have key: "\<not> no_key (lookup_of s)"
      and att: "currentPromise s \<in> fst ` set (continuations s)"
      by (simp_all add: wellformed_def)
    from att obtain k where "settle (currentPromise s) st s =
           (Some (currentPromise s, k),
            snd (continuation (currentPromise s) k st
                    (s\<lparr>continuations := remove1 (currentPromise s, k) (continuations s)\<rparr>)))"
      by (rule settle_attached)
    then have cleared: "currentPromise ?u = JNull"
      by (cases st) (simp_all add: continuation_def loadEnd_def completeLoad_def)
    have frame: "calls ?u = calls s" "dynamic ?u = dynamic s"
      by (simp_all add: settle_frame)
    have "wellformed ?u" using wf by (rule wellformed_step)
    then have clear: "\<not> scheduled ?w"
      by (auto simp add: run_microtasks_def wellformed_def)
    have w: "calls ?w = calls s" "lookup_of ?w = lookup_of s" "data ?w = data ?u"
      using frame by (simp_all add: run_microtasks_def lookup_of_def)
    from clear have "\<not> deduplicated (refetching_param info) ?w"
      by (simp add: deduplicated_def)
    with key w have "calls (snd (load f info ?w)) =
        calls s @ [(lookup_of s,
                    \<lparr>info_value = data ?u, info_refetching = refetching_param info\<rparr>)]"
      by (simp add: load_calls)
    with cleared show ?thesis by (simp add: run_def refetch_def)
  qed
  from a b c d e g [of arg t] h i show ?thesis by blast
qed

theorem refetch_deduplication_witness:
  "deduplicated (refetching_param JUndefined) (createResource fetch_promises None JUndefined)
   \<and> load fetch_promises JUndefined (createResource fetch_promises None JUndefined)
       = (Returned JUndefined, createResource fetch_promises None JUndefined)
   \<and> \<not> scheduled (step fetch_promises (createResource fetch_promises None JUndefined) Microtasks)
   \<and> scheduled (snd (refetch fetch_promises JUndefined
         (step fetch_promises (createResource fetch_promises None JUndefined) Microtasks)))
   \<and> refetch fetch_promises JUndefined (snd (refetch fetch_promises JUndefined
         (step fetch_promises (createResource fetch_promises None JUndefined) Microtasks)))
       = (Returned JUndefined, snd (refetch fetch_promises JUndefined
           (step fetch_promises (createResource fetch_promises None JUndefined) Microtasks)))
   \<and> currentPromise (createResource fetch_promises None JUndefined) = JPromise 0
   \<and> calls (run fetch_promises (createResource fetch_promises None JUndefined)
        [Settle (JPromise 0) (Fulfilled (JNum 9)), Microtasks, Refetch JUndefined])
       = [(JBool True, \<lparr>info_value = JUndefined, info_refetching = JBool False\<rparr>),
          (JBool True, \<lparr>info_value = JNum 9, info_refetching = JBool True\<rparr>)]"
proof -
  let ?s = "createResource fetch_promises None JUndefined"
  let ?t = "step fetch_promises ?s Microtasks"
  have s: "?s = run fetch_promises (createResource fetch_promises None JUndefined) []"
    by (simp add: run_def)
  have v: "?s = \<lparr>data = JUndefined, error = JUndefined, state = Pending,
       currentPromise = JPromise 0, resolved = False, scheduled = True, dynamic = None,
       microtasks = 1, continuations = [(JPromise 0, JBool True)],
       calls = [(JBool True, \<lparr>info_value = JUndefined, info_refetching = JBool False\<rparr>)]\<rparr>"
    by (simp add: resource_defs fetch_promises_def Let_def)
  have d: "deduplicated (refetching_param JUndefined) ?s"
    by (simp add: v deduplicated_def refetching_param_def)
  have p: "currentPromise ?s = JPromise 0" "currentPromise ?s \<noteq> JNull"
    by (simp_all add: v)
  have q: "scheduled (snd (refetch fetch_promises JUndefined ?t))"
    "refetching_param JUndefined \<noteq> JBool False"
    by (simp_all add: v resource_defs fetch_promises_def Let_def)
  note inst = refetch_deduplication [OF s, where arg = JUndefined and info = JUndefined
      and info' = JUndefined and st = "Fulfilled (JNum 9)"]
  from inst [where t = ?s] d
  have 1: "load fetch_promises JUndefined ?s = (Returned JUndefined, ?s)"
    by blast
  from inst [where t = ?s]
  have 2: "\<not> scheduled ?t"
    by blast
  from inst [where t = ?t] q
  have 3: "refetch fetch_promises JUndefined (snd (refetch fetch_promises JUndefined ?t))
       = (Returned JUndefined, snd (refetch fetch_promises JUndefined ?t))"
    by blast
  from inst [where t = ?s] p(2)
  have "calls (run fetch_promises ?s
          [Settle (currentPromise ?s) (Fulfilled (JNum 9)), Microtasks, Refetch JUndefined]) =
        calls ?s @ [(lookup_of ?s,
          \<lparr>info_value = data (step fetch_promises ?s (Settle (currentPromise ?s) (Fulfilled (JNum 9)))),
           info_refetching = refetching_param JUndefined\<rparr>)]"
    by blast
  then have 4: "calls (run fetch_promises ?s
        [Settle (JPromise 0) (Fulfilled (JNum 9)), Microtasks, Refetch JUndefined])
       = [(JBool True, \<lparr>info_value = JUndefined, info_refetching = JBool False\<rparr>),
          (JBool True, \<lparr>info_value = JNum 9, info_refetching = JBool True\<rparr>)]"
    unfolding p(1)
    by (simp add: v settle_def continuation_def loadEnd_def completeLoad_def lookup_of_def
          refetching_param_def)
  from d 1 2 q(1) 3 p(1) 4 show ?thesis by blast
qed

text \<open>
  C2 as stated fails for a fetcher that answers the first of two \<open>refetch\<close> calls at
  once: while the promise of the first fetch is pending and tracked, and the microtask
  has cleared \<open>scheduled\<close>, two \<open>refetch()\<close> calls in a row invoke the fetcher twice,
  and the second returns the fetched value. The continuation of the first fetch is
  still waiting afterwards.
\<close>

theorem refetch_twice_counterexample:
  "currentPromise (run fetch_promise_first
      (createResource fetch_promise_first None JUndefined) [Microtasks]) = JPromise 0
   \<and> loading (run fetch_promise_first
      (createResource fetch_promise_first None JUndefined) [Microtasks])
   \<and> fst (refetch fetch_promise_first JUndefined (run fetch_promise_first
      (createResource fetch_promise_first None JUndefined) [Microtasks, Refetch JUndefined]))
       = Returned (JNum 2)
   \<and> length (calls (run fetch_promise_first
      (createResource fetch_promise_first None JUndefined)
      [Microtasks, Refetch JUndefined, Refetch JUndefined]))
       = length (calls (run fetch_promise_first
      (createResource fetch_promise_first None JUndefined) [Microtasks])) + 2
   \<and> continuations (run fetch_promise_first
      (createResource fetch_promise_first None JUndefined)
      [Microtasks, Refetch JUndefined, Refetch JUndefined]) = [(JPromise 0, JBool True)]"
  by (simp add: resource_defs fetch_promise_first_def Let_def)

end
